theory Spec2Isabelle
  imports Main "HOL-Library.AList" "HOL-Library.Multiset"
begin

section \<open>The IFRS Advisor session component\<close>

text \<open>
  The repository holds one React component, \<open>IFRSAdvisor\<close>, in two revisions:
  \<open>src/components/IFRSAdvisor.tsx\<close> and a later copy with connection diagnostics (a connect
  timer, a guarded \<open>send\<close>, a toast on a close whose code is not 1000). Both are embedded
  here; a \<open>revision\<close> argument selects between them where they differ. The component state
  is the record \<open>state\<close>; every callback of the source is a function from state to state.
  Console output is not modelled.
\<close>

datatype revision = Plain | Diagnostic

subsection \<open>Strings\<close>

text \<open>
  Strings are lists of 8-bit code units. Of the code units that \<open>String.prototype.trim\<close>
  strips, those below 256 are TAB, LF, VT, FF, CR, SPACE and NBSP.
\<close>

definition is_whitespace :: "char \<Rightarrow> bool" where
  "is_whitespace c \<longleftrightarrow>
     c \<in> set [CHR 0x09, CHR 0x0A, CHR 0x0B, CHR 0x0C, CHR 0x0D, CHR 0x20, CHR 0xA0]"

definition trim :: "string \<Rightarrow> string" where
  "trim s = rev (dropWhile is_whitespace (rev (dropWhile is_whitespace s)))"

fun string_of_nat :: "nat \<Rightarrow> string" where
  "string_of_nat n =
     (if n < 10 then [''0123456789'' ! n]
      else string_of_nat (n div 10) @ [''0123456789'' ! (n mod 10)])"

declare string_of_nat.simps [simp del]

subsection \<open>Objects with numeric keys\<close>

text \<open>
  \<open>Record<number, T>\<close> is an association list in the object's own property order: keys that
  are array indices (integers from 0 below \<open>2^32 - 1\<close>) come first in ascending order, every
  other key follows in the order of its creation. \<open>obj_put k v obj\<close> is
  \<open>{ ...obj, [k]: v }\<close>: an existing key keeps its place and takes the new value.
\<close>

definition is_array_index :: "int \<Rightarrow> bool" where
  "is_array_index k \<longleftrightarrow> 0 \<le> k \<and> k < 2 ^ 32 - 1"

fun obj_insert :: "int \<Rightarrow> 'v \<Rightarrow> (int \<times> 'v) list \<Rightarrow> (int \<times> 'v) list" where
  "obj_insert k v [] = [(k, v)]"
| "obj_insert k v (p # ps) =
     (if is_array_index (fst p) \<and> fst p < k then p # obj_insert k v ps
      else (k, v) # p # ps)"

definition obj_put :: "int \<Rightarrow> 'v \<Rightarrow> (int \<times> 'v) list \<Rightarrow> (int \<times> 'v) list" where
  "obj_put k v obj =
     (if k \<in> set (map fst obj) then AList.update k v obj
      else if is_array_index k then obj_insert k v obj
      else obj @ [(k, v)])"

definition Object_fromEntries :: "(int \<times> 'v) list \<Rightarrow> (int \<times> 'v) list" where
  "Object_fromEntries es = foldl (\<lambda>obj e. obj_put (fst e) (snd e) obj) [] es"

definition Object_values :: "(int \<times> 'v) list \<Rightarrow> 'v list" where
  "Object_values obj = map snd obj"

subsection \<open>Messages\<close>

text \<open>
  \<open>IncomingMessage\<close> is what \<open>JSON.parse\<close> returned, read through the properties the
  handler and the view use. \<open>msg_type\<close> is \<open>data.type\<close> (empty when absent or not a
  string), \<open>sent_in_order\<close> is \<open>Some b\<close> exactly when \<open>typeof data.sent_in_order\<close> is
  \<open>"boolean"\<close>, \<open>msg_summary\<close> is the property \<open>summary\<close> of a summary message.
  \<open>question_number\<close> is an integer, as the message contract has it; a number with a
  fraction, or a value that is not a number, is outside the model.
  A \<open>frame\<close> is the outcome of \<open>JSON.parse(event.data)\<close>: it throws, it returns
  \<open>null\<close> (reading a property of it throws), or it returns a value with properties.
\<close>

record IncomingMessage =
  msg_type :: string
  sent_in_order :: "bool option"
  question_number :: int
  question :: string
  answer :: string
  msg_summary :: string
  timestamp :: "string option"

datatype frame = Unparseable | JsonNull | Json IncomingMessage

datatype js_error = SyntaxError | TypeError | InvalidStateError

datatype payload = Payload string string "string list" string

record toast =
  title :: string
  description :: string

subsection \<open>Sockets\<close>

text \<open>
  A socket is known by its position in \<open>sockets\<close>. \<open>connectTimeout\<close> is the delay in
  milliseconds of the pending connect timer, \<open>None\<close> when no timer is pending.
  \<open>request\<close> is the payload the \<open>onopen\<close> closure builds from the background and the
  questions captured at submission; \<open>outbox\<close> is what \<open>send\<close> was given.
\<close>

datatype readyState = CONNECTING | OPEN | CLOSING | CLOSED

record socket =
  readyState :: readyState
  connectTimeout :: "nat option"
  request :: payload
  outbox :: "payload list"

subsection \<open>Component state\<close>

record state =
  background :: string
  questions :: "string list"
  ws :: "nat option"
  sessionLoading :: bool
  answers :: "(int \<times> IncomingMessage) list"
  typing :: "(int \<times> bool) list"
  summary :: "IncomingMessage option"
  sentInOrder :: "bool option"
  sockets :: "socket list"
  toasts :: "toast list"

definition initial :: state where
  "initial = \<lparr> background = [], questions = [[]], ws = None, sessionLoading = False,
     answers = [], typing = [], summary = None, sentInOrder = None,
     sockets = [], toasts = [] \<rparr>"

definition sortedAnswers :: "state \<Rightarrow> IncomingMessage list" where
  "sortedAnswers st = sort_key question_number (Object_values (answers st))"

text \<open>The numbers whose typing indicator is rendered: the keys of \<open>typing\<close> whose value is true.\<close>

definition pendingNumbers :: "state \<Rightarrow> int set" where
  "pendingNumbers st = set (map fst (filter snd (typing st)))"

subsection \<open>Socket operations\<close>

definition update_socket :: "nat \<Rightarrow> (socket \<Rightarrow> socket) \<Rightarrow> state \<Rightarrow> state" where
  "update_socket sid f st =
     (if sid < length (sockets st) then st\<lparr>sockets := (sockets st)[sid := f (sockets st ! sid)]\<rparr>
      else st)"

definition readyState_of :: "state \<Rightarrow> nat \<Rightarrow> readyState option" where
  "readyState_of st sid =
     (if sid < length (sockets st) then Some (readyState (sockets st ! sid)) else None)"

definition timer_of :: "state \<Rightarrow> nat \<Rightarrow> nat option" where
  "timer_of st sid =
     (if sid < length (sockets st) then connectTimeout (sockets st ! sid) else None)"

text \<open>\<open>socket.close()\<close>: a connecting or open socket starts closing, otherwise nothing happens.\<close>

definition socket_close :: "nat \<Rightarrow> state \<Rightarrow> state" where
  "socket_close sid st =
     update_socket sid
       (\<lambda>s. if readyState s = CONNECTING \<or> readyState s = OPEN
            then s\<lparr>readyState := CLOSING\<rparr> else s) st"

text \<open>
  \<open>socket.send(data)\<close> throws while the socket is connecting, queues the data while it is
  open, and drops the data once it is closing or closed.
\<close>

definition socket_send :: "nat \<Rightarrow> payload \<Rightarrow> state \<Rightarrow> js_error + state" where
  "socket_send sid p st =
     (case readyState_of st sid of
        Some CONNECTING \<Rightarrow> Inl InvalidStateError
      | Some OPEN \<Rightarrow> Inr (update_socket sid (\<lambda>s. s\<lparr>outbox := outbox s @ [p]\<rparr>) st)
      | _ \<Rightarrow> Inr st)"

definition clearTimeout :: "nat \<Rightarrow> state \<Rightarrow> state" where
  "clearTimeout sid st = update_socket sid (\<lambda>s. s\<lparr>connectTimeout := None\<rparr>) st"

definition show_toast :: "toast \<Rightarrow> state \<Rightarrow> state" where
  "show_toast t st = st\<lparr>toasts := toasts st @ [t]\<rparr>"

subsection \<open>The form\<close>

text \<open>The setters of the two inputs: the background text and the list of questions.\<close>

definition setBackground :: "string \<Rightarrow> state \<Rightarrow> state" where
  "setBackground v st = st\<lparr>background := v\<rparr>"

definition addQuestion :: "state \<Rightarrow> state" where
  "addQuestion st = st\<lparr>questions := questions st @ [[]]\<rparr>"

definition removeQuestion :: "nat \<Rightarrow> state \<Rightarrow> state" where
  "removeQuestion idx st =
     st\<lparr>questions := map snd (filter (\<lambda>p. fst p \<noteq> idx) (enumerate 0 (questions st)))\<rparr>"

definition updateQuestion :: "nat \<Rightarrow> string \<Rightarrow> state \<Rightarrow> state" where
  "updateQuestion idx v st =
     st\<lparr>questions := map (\<lambda>p. if fst p = idx then v else snd p) (enumerate 0 (questions st))\<rparr>"

subsection \<open>Submission\<close>

definition trimmedQuestions :: "state \<Rightarrow> string list" where
  "trimmedQuestions st = filter (\<lambda>q. length q > 0) (map trim (questions st))"

definition new_socket :: "revision \<Rightarrow> state \<Rightarrow> socket" where
  "new_socket r st =
     \<lparr> readyState = CONNECTING,
       connectTimeout = (case r of Plain \<Rightarrow> None | Diagnostic \<Rightarrow> Some 10000),
       request = Payload ''process_questions'' (trim (background st)) (trimmedQuestions st)
                   ''gpt-4o-mini'',
       outbox = [] \<rparr>"

definition handleSubmit :: "revision \<Rightarrow> state \<Rightarrow> state" where
  "handleSubmit r st =
     (if trim (background st) = [] then
        show_toast \<lparr> title = ''Background is required'',
                     description = ''Please describe your IFRS scenario.'' \<rparr> st
      else if length (trimmedQuestions st) = 0 then
        show_toast \<lparr> title = ''Add at least one question'',
                     description = ''Please include one or more questions.'' \<rparr> st
      else
        st\<lparr> answers := [],
            typing := Object_fromEntries
                        (map (\<lambda>i. (int i + 1, True)) [0..<length (trimmedQuestions st)]),
            summary := None,
            sentInOrder := None,
            sessionLoading := True,
            ws := Some (length (sockets st)),
            sockets := sockets st @ [new_socket r st] \<rparr>)"

text \<open>
  The effect \<open>useEffect(() => () => ws?.close(), [ws])\<close>: when a render commits a changed
  \<open>ws\<close>, the cleanup of the previous render closes the socket that \<open>ws\<close> held before.
\<close>

definition ws_cleanup :: "nat option \<Rightarrow> state \<Rightarrow> state" where
  "ws_cleanup old st =
     (if ws st = old then st
      else case old of None \<Rightarrow> st | Some sid \<Rightarrow> socket_close sid st)"

text \<open>A click on the submit button: the handler runs, then the render commits.\<close>

definition submit :: "revision \<Rightarrow> state \<Rightarrow> state" where
  "submit r st = ws_cleanup (ws st) (handleSubmit r st)"

subsection \<open>Socket callbacks\<close>

definition onopen :: "revision \<Rightarrow> nat \<Rightarrow> state \<Rightarrow> state" where
  "onopen r sid st =
     (case r of
        Plain \<Rightarrow>
          (if sid < length (sockets st) then
             (case socket_send sid (request (sockets st ! sid)) st of
                Inl e \<Rightarrow> st | Inr st' \<Rightarrow> st')
           else st)
      | Diagnostic \<Rightarrow>
          (let st1 = clearTimeout sid st in
           if sid < length (sockets st1) then
             (case socket_send sid (request (sockets st1 ! sid)) st1 of
                Inl e \<Rightarrow>
                  show_toast \<lparr> title = ''Send failed'',
                     description = ''Payload could not be sent. See console for details.'' \<rparr>
                    (st1\<lparr>sessionLoading := False\<rparr>)
              | Inr st' \<Rightarrow> st')
           else st1))"

text \<open>The body of the \<open>try\<close> block of \<open>onmessage\<close>; \<open>Inl\<close> is a thrown exception.\<close>

definition onmessage_try :: "frame \<Rightarrow> state \<Rightarrow> js_error + state" where
  "onmessage_try f st =
     (case f of
        Unparseable \<Rightarrow> Inl SyntaxError
      | JsonNull \<Rightarrow> Inl TypeError
      | Json data \<Rightarrow>
          (let st1 = (case sent_in_order data of
                        Some b \<Rightarrow> st\<lparr>sentInOrder := Some b\<rparr>
                      | None \<Rightarrow> st)
           in if msg_type data = ''answer'' then
                Inr (st1\<lparr> answers := obj_put (question_number data) data (answers st1),
                          typing := obj_put (question_number data) False (typing st1) \<rparr>)
              else if msg_type data = ''summary'' then
                Inr (st1\<lparr> summary := Some data, sessionLoading := False \<rparr>)
              else Inr st1))"

text \<open>The \<open>catch\<close> block only writes to the console.\<close>

definition onmessage :: "revision \<Rightarrow> frame \<Rightarrow> state \<Rightarrow> state" where
  "onmessage r f st = (case onmessage_try f st of Inl e \<Rightarrow> st | Inr st' \<Rightarrow> st')"

definition onerror :: "revision \<Rightarrow> nat \<Rightarrow> state \<Rightarrow> state" where
  "onerror r sid st =
     (case r of
        Plain \<Rightarrow>
          show_toast \<lparr> title = ''Connection error'',
             description = ''Could not connect to IFRS Advisor. Please try again.'' \<rparr>
            (st\<lparr>sessionLoading := False\<rparr>)
      | Diagnostic \<Rightarrow>
          show_toast \<lparr> title = ''Connection error'',
             description = ''WebSocket error occurred. Common causes: TLS certificate mismatch (IP vs domain), firewall, or server down.'' \<rparr>
            ((clearTimeout sid st)\<lparr>sessionLoading := False\<rparr>))"

definition onclose :: "revision \<Rightarrow> nat \<Rightarrow> nat \<Rightarrow> string \<Rightarrow> state \<Rightarrow> state" where
  "onclose r sid code reason st =
     (case r of
        Plain \<Rightarrow> st\<lparr>sessionLoading := False\<rparr>
      | Diagnostic \<Rightarrow>
          (let st1 = (clearTimeout sid st)\<lparr>sessionLoading := False\<rparr>
           in if code \<noteq> 1000 then
                show_toast \<lparr> title = ''Connection closed ('' @ string_of_nat code @ '')'',
                   description = (if reason \<noteq> [] then reason
                     else ''The connection was closed unexpectedly. See console for diagnostics.'') \<rparr>
                  st1
              else st1))"

text \<open>The callback given to \<open>window.setTimeout\<close> in the revision with diagnostics.\<close>

definition connectTimeout_callback :: "nat \<Rightarrow> state \<Rightarrow> state" where
  "connectTimeout_callback sid st =
     (if readyState_of st sid = Some CONNECTING then
        show_toast \<lparr> title = ''Connection timeout'',
           description = ''Could not establish a secure WebSocket within 10s. Check TLS/cert or server availability.'' \<rparr>
          ((socket_close sid st)\<lparr>sessionLoading := False\<rparr>)
      else st)"

subsection \<open>Event delivery\<close>

text \<open>
  What the browser does around the callbacks. An open event is fired on a connecting socket,
  once its state is \<open>OPEN\<close>; a message event is fired only while the state is \<open>OPEN\<close>;
  error and close events are fired on a socket that is not yet closed, the close event once
  its state is \<open>CLOSED\<close>; a timer fires once, unless it was cleared. An event that the
  browser does not fire leaves the state as it is.
\<close>

datatype event =
    Opened nat
  | Received nat frame
  | Errored nat
  | Closed nat nat string
  | TimedOut nat

definition set_readyState :: "nat \<Rightarrow> readyState \<Rightarrow> state \<Rightarrow> state" where
  "set_readyState sid rs st = update_socket sid (\<lambda>s. s\<lparr>readyState := rs\<rparr>) st"

fun handle :: "revision \<Rightarrow> event \<Rightarrow> state \<Rightarrow> state" where
  "handle r (Opened sid) st =
     (if readyState_of st sid = Some CONNECTING
      then onopen r sid (set_readyState sid OPEN st) else st)"
| "handle r (Received sid f) st =
     (if readyState_of st sid = Some OPEN then onmessage r f st else st)"
| "handle r (Errored sid) st =
     (if readyState_of st sid \<in> {Some CONNECTING, Some OPEN, Some CLOSING}
      then onerror r sid st else st)"
| "handle r (Closed sid code reason) st =
     (if readyState_of st sid \<in> {Some CONNECTING, Some OPEN, Some CLOSING}
      then onclose r sid code reason (set_readyState sid CLOSED st) else st)"
| "handle r (TimedOut sid) st =
     (if timer_of st sid \<noteq> None
      then connectTimeout_callback sid (clearTimeout sid st) else st)"

fun run :: "revision \<Rightarrow> event list \<Rightarrow> state \<Rightarrow> state" where
  "run r [] st = st"
| "run r (e # es) st = run r es (handle r e st)"

text \<open>Processing a sequence of parsed messages with the message handler.\<close>

fun deliver :: "revision \<Rightarrow> IncomingMessage list \<Rightarrow> state \<Rightarrow> state" where
  "deliver r [] st = st"
| "deliver r (m # ms) st = deliver r ms (onmessage r (Json m) st)"

subsection \<open>Invariants and example inputs\<close>

text \<open>
  In \<open>answers\<close> every message sits under its own question number, and no key occurs twice:
  the handler only ever stores \<open>msg\<close> under \<open>msg.question_number\<close>.
\<close>

definition keyed_by_number :: "(int \<times> IncomingMessage) list \<Rightarrow> bool" where
  "keyed_by_number obj \<longleftrightarrow>
     distinct (map fst obj) \<and> list_all (\<lambda>p. question_number (snd p) = fst p) obj"

text \<open>\<open>answers_number k e\<close>: the event \<open>e\<close> carries an answer message for question \<open>k\<close>.\<close>

fun answers_number :: "int \<Rightarrow> event \<Rightarrow> bool" where
  "answers_number k (Received sid (Json m)) \<longleftrightarrow> msg_type m = ''answer'' \<and> question_number m = k"
| "answers_number k e \<longleftrightarrow> False"

definition example_form :: state where
  "example_form = initial\<lparr> background := '' Lease classification for Co A '',
     questions := [''Is this a finance lease?'', ''  '', ''What discount rate applies?''] \<rparr>"

definition example_answer :: "int \<Rightarrow> string \<Rightarrow> IncomingMessage" where
  "example_answer n txt = \<lparr> msg_type = ''answer'', sent_in_order = None, question_number = n,
     question = ''q'', answer = txt, msg_summary = [], timestamp = None \<rparr>"

definition example_summary :: IncomingMessage where
  "example_summary = \<lparr> msg_type = ''summary'', sent_in_order = Some False, question_number = 0,
     question = [], answer = [], msg_summary = ''Done.'', timestamp = None \<rparr>"

text \<open>The handle in \<open>ws\<close>, when there is one, is a socket that was created.\<close>

definition ws_valid :: "state \<Rightarrow> bool" where
  "ws_valid st \<longleftrightarrow> (case ws st of None \<Rightarrow> True | Some sid \<Rightarrow> sid < length (sockets st))"

definition example_blank_questions :: state where
  "example_blank_questions = initial\<lparr> background := ''ctx'', questions := ['''', ''  ''] \<rparr>"

definition example_unknown :: IncomingMessage where
  "example_unknown = \<lparr> msg_type = ''progress'', sent_in_order = Some False, question_number = 0,
     question = [], answer = [], msg_summary = [], timestamp = None \<rparr>"

text \<open>\<open>close()\<close> has been called on the socket, or the socket is closed.\<close>

definition closing_or_closed :: "state \<Rightarrow> nat \<Rightarrow> bool" where
  "closing_or_closed st sid \<longleftrightarrow>
     readyState_of st sid = Some CLOSING \<or> readyState_of st sid = Some CLOSED"

section \<open>Properties\<close>

subsection \<open>Objects\<close>

lemma obj_insert_set: "set (obj_insert k v ps) = insert (k, v) (set ps)"
  by (induction ps) auto

lemma obj_insert_distinct:
  "k \<notin> fst ` set ps \<Longrightarrow> distinct (map fst ps) \<Longrightarrow> distinct (map fst (obj_insert k v ps))"
  by (induction ps) (auto simp: obj_insert_set)

lemma obj_put_keys: "fst ` set (obj_put k v obj) = insert k (fst ` set obj)"
proof (cases "k \<in> fst ` set obj")
  case True
  then show ?thesis
    using AList.dom_update [of k v obj] by (auto simp: obj_put_def)
next
  case False
  then show ?thesis by (simp add: obj_put_def obj_insert_set)
qed

lemma obj_put_distinct:
  "distinct (map fst obj) \<Longrightarrow> distinct (map fst (obj_put k v obj))"
  by (simp add: obj_put_def obj_insert_distinct AList.distinct_update)

lemma update_set:
  "distinct (map fst al) \<Longrightarrow>
   set (AList.update k v al) = insert (k, v) {p \<in> set al. fst p \<noteq> k}"
  by (induction al) (auto simp: rev_image_eqI)

lemma obj_put_set:
  "distinct (map fst obj) \<Longrightarrow>
   set (obj_put k v obj) = insert (k, v) {p \<in> set obj. fst p \<noteq> k}"
  by (auto simp: obj_put_def obj_insert_set update_set rev_image_eqI)

lemma update_obj_insert:
  "k \<notin> fst ` set ps \<Longrightarrow> AList.update k v (obj_insert k v' ps) = obj_insert k v ps"
  by (induction ps) auto

lemma update_snoc:
  "k \<notin> fst ` set ps \<Longrightarrow> AList.update k v (ps @ [(k, v')]) = ps @ [(k, v)]"
  by (induction ps) auto

lemma obj_put_twice: "obj_put k v (obj_put k v' obj) = obj_put k v obj"
proof -
  have mem: "k \<in> set (map fst (obj_put k v' obj))"
    using obj_put_keys [of k v' obj] by simp
  show ?thesis
  proof (cases "k \<in> fst ` set obj")
    case True
    then show ?thesis using mem by (simp add: obj_put_def)
  next
    case False
    then show ?thesis
      using mem by (simp add: obj_put_def update_obj_insert update_snoc obj_insert_set)
  qed
qed

lemma keyed_filter:
  "distinct (map fst xs) \<Longrightarrow> (k, v) \<in> set xs \<Longrightarrow> filter (\<lambda>p. fst p = k) xs = [(k, v)]"
proof (induction xs)
  case Nil
  then show ?case by simp
next
  case (Cons p ps)
  show ?case
  proof (cases "fst p = k")
    case True
    with Cons.prems(1) have notin: "k \<notin> fst ` set ps" by auto
    then have "\<forall>q\<in>set ps. fst q \<noteq> k" by force
    then have "filter (\<lambda>q. fst q = k) ps = []" by (simp add: filter_empty_conv)
    moreover have "p = (k, v)"
      using Cons.prems(2) notin True by (cases p) force
    ultimately show ?thesis by simp
  next
    case False
    with Cons show ?thesis by auto
  qed
qed

lemma keyed_by_number_put:
  "keyed_by_number obj \<Longrightarrow> keyed_by_number (obj_put (question_number m) m obj)"
  by (auto simp: keyed_by_number_def obj_put_distinct obj_put_set list_all_iff)

subsection \<open>What each callback leaves alone\<close>

lemma update_socket_fields [simp]:
  "background (update_socket sid f st) = background st"
  "questions (update_socket sid f st) = questions st"
  "ws (update_socket sid f st) = ws st"
  "sessionLoading (update_socket sid f st) = sessionLoading st"
  "answers (update_socket sid f st) = answers st"
  "typing (update_socket sid f st) = typing st"
  "summary (update_socket sid f st) = summary st"
  "sentInOrder (update_socket sid f st) = sentInOrder st"
  "toasts (update_socket sid f st) = toasts st"
  "length (sockets (update_socket sid f st)) = length (sockets st)"
  by (simp_all add: update_socket_def)

lemma update_socket_eq:
  "update_socket sid f st = st\<lparr>sockets := sockets (update_socket sid f st)\<rparr>"
  by (simp add: update_socket_def)

lemma onmessage_answer:
  assumes "msg_type m = ''answer''"
  shows "answers (onmessage r (Json m) st) = obj_put (question_number m) m (answers st)"
    and "typing (onmessage r (Json m) st) = obj_put (question_number m) False (typing st)"
    and "summary (onmessage r (Json m) st) = summary st"
    and "sessionLoading (onmessage r (Json m) st) = sessionLoading st"
  using assms by (simp_all add: onmessage_def onmessage_try_def split: option.splits)

lemma onmessage_env [simp]:
  "sockets (onmessage r f st) = sockets st"
  "toasts (onmessage r f st) = toasts st"
  "ws (onmessage r f st) = ws st"
  "background (onmessage r f st) = background st"
  "questions (onmessage r f st) = questions st"
  by (simp_all add: onmessage_def onmessage_try_def Let_def split: frame.splits option.splits)

lemma ws_cleanup_fields [simp]:
  "background (ws_cleanup old st) = background st"
  "questions (ws_cleanup old st) = questions st"
  "ws (ws_cleanup old st) = ws st"
  "sessionLoading (ws_cleanup old st) = sessionLoading st"
  "answers (ws_cleanup old st) = answers st"
  "typing (ws_cleanup old st) = typing st"
  "summary (ws_cleanup old st) = summary st"
  "sentInOrder (ws_cleanup old st) = sentInOrder st"
  "toasts (ws_cleanup old st) = toasts st"
  "length (sockets (ws_cleanup old st)) = length (sockets st)"
  by (simp_all add: ws_cleanup_def socket_close_def split: option.splits)

subsection \<open>A valid submission\<close>

lemma handleSubmit_valid:
  assumes "trim (background st) \<noteq> []" and "trimmedQuestions st \<noteq> []"
  shows "handleSubmit r st =
    st\<lparr> answers := [],
        typing := Object_fromEntries
                    (map (\<lambda>i. (int i + 1, True)) [0..<length (trimmedQuestions st)]),
        summary := None, sentInOrder := None, sessionLoading := True,
        ws := Some (length (sockets st)),
        sockets := sockets st @ [new_socket r st] \<rparr>"
  using assms by (simp add: handleSubmit_def)

lemma submit_valid_fields:
  assumes "trim (background st) \<noteq> []" and "trimmedQuestions st \<noteq> []"
  shows "answers (submit r st) = []"
    and "summary (submit r st) = None"
    and "sentInOrder (submit r st) = None"
    and "sessionLoading (submit r st)"
    and "ws (submit r st) = Some (length (sockets st))"
    and "toasts (submit r st) = toasts st"
    and "length (sockets (submit r st)) = Suc (length (sockets st))"
    and "typing (submit r st) = Object_fromEntries
           (map (\<lambda>i. (int i + 1, True)) [0..<length (trimmedQuestions st)])"
  using assms by (simp_all add: submit_def handleSubmit_valid)

lemma submit_new_socket:
  assumes "trim (background st) \<noteq> []" and "trimmedQuestions st \<noteq> []" and "ws_valid st"
  shows "sockets (submit r st) ! length (sockets st) = new_socket r st"
  using assms
  by (auto simp: submit_def handleSubmit_valid ws_cleanup_def socket_close_def update_socket_def
      ws_valid_def nth_append split: option.splits)

lemma submit_old_socket:
  assumes "trim (background st) \<noteq> []" and "trimmedQuestions st \<noteq> []"
    and "ws st = Some old" and "old < length (sockets st)"
  shows "readyState_of (submit r st) old =
     Some (if readyState (sockets st ! old) = CLOSED then CLOSED else CLOSING)"
  using assms
  by (cases "readyState (sockets st ! old)")
     (auto simp: submit_def handleSubmit_valid ws_cleanup_def socket_close_def update_socket_def
      readyState_of_def nth_append)

lemma example_form_valid:
  "trim (background example_form) \<noteq> []"
  "trimmedQuestions example_form = [''Is this a finance lease?'', ''What discount rate applies?'']"
  "ws_valid example_form"
  "length (sockets example_form) = 0"
  "toasts example_form = []"
  by (simp_all add: example_form_def initial_def trim_def trimmedQuestions_def is_whitespace_def
      ws_valid_def)

subsection \<open>Folding entries into an object\<close>

lemma fold_put_set:
  "distinct (map fst obj) \<Longrightarrow> distinct (map fst es) \<Longrightarrow> fst ` set es \<inter> fst ` set obj = {} \<Longrightarrow>
   set (foldl (\<lambda>obj e. obj_put (fst e) (snd e) obj) obj es) = set obj \<union> set es
   \<and> distinct (map fst (foldl (\<lambda>obj e. obj_put (fst e) (snd e) obj) obj es))"
proof (induction es arbitrary: obj)
  case Nil
  then show ?case by simp
next
  case (Cons e es)
  let ?obj = "obj_put (fst e) (snd e) obj"
  have notin: "fst e \<notin> fst ` set obj"
    using Cons.prems(3) by auto
  have d: "distinct (map fst ?obj)"
    using Cons.prems(1) by (rule obj_put_distinct)
  have "\<forall>p\<in>set obj. fst p \<noteq> fst e"
    using notin by (metis imageI)
  then have "{p \<in> set obj. fst p \<noteq> fst e} = set obj"
    by auto
  then have s: "set ?obj = insert e (set obj)"
    using Cons.prems(1) by (simp add: obj_put_set)
  have disj: "fst ` set es \<inter> fst ` set ?obj = {}"
    using Cons.prems(2,3) by (auto simp: s)
  have d': "distinct (map fst es)"
    using Cons.prems(2) by simp
  show ?case
    using Cons.IH [OF d d' disj] by (simp add: s)
qed

lemma fromEntries_set:
  "distinct (map fst es) \<Longrightarrow>
   set (Object_fromEntries es) = set es \<and> distinct (map fst (Object_fromEntries es))"
  using fold_put_set [of "[]" es] by (simp add: Object_fromEntries_def)

lemma deliver_answers:
  "list_all (\<lambda>m. msg_type m = ''answer'') ms \<Longrightarrow>
   answers (deliver r ms st) =
     foldl (\<lambda>obj e. obj_put (fst e) (snd e) obj) (answers st) (map (\<lambda>m. (question_number m, m)) ms)"
  by (induction ms arbitrary: st) (simp_all add: onmessage_answer)

lemma keyed_values:
  "keyed_by_number obj \<Longrightarrow> map question_number (Object_values obj) = map fst obj"
  by (induction obj) (simp_all add: keyed_by_number_def Object_values_def)

lemma sorted_view:
  assumes "keyed_by_number obj"
  shows "sorted (map question_number (sort_key question_number (Object_values obj)))"
    and "distinct (map question_number (sort_key question_number (Object_values obj)))"
    and "set (sort_key question_number (Object_values obj)) = snd ` set obj"
proof -
  let ?vs = "Object_values obj"
  show "sorted (map question_number (sort_key question_number ?vs))"
    by (rule sorted_sort_key)
  have "mset (map question_number (sort_key question_number ?vs)) = mset (map fst obj)"
    using keyed_values [OF assms] by (metis mset_map mset_sort)
  moreover have "distinct (map fst obj)"
    using assms by (simp add: keyed_by_number_def)
  ultimately show "distinct (map question_number (sort_key question_number ?vs))"
    by (metis mset_eq_imp_distinct_iff)
  show "set (sort_key question_number ?vs) = snd ` set obj"
    by (simp add: Object_values_def)
qed

subsection \<open>Storing an answer\<close>

lemma keyed_by_number_onmessage:
  "keyed_by_number (answers st) \<Longrightarrow> keyed_by_number (answers (onmessage r f st))"
  by (cases f)
     (auto simp: onmessage_def onmessage_try_def Let_def keyed_by_number_put split: option.splits)

lemma typing_distinct_onmessage:
  "distinct (map fst (typing st)) \<Longrightarrow> distinct (map fst (typing (onmessage r f st)))"
  by (cases f)
     (auto simp: onmessage_def onmessage_try_def Let_def obj_put_distinct split: option.splits)

lemma stored_answer:
  assumes "msg_type m = ''answer''" and "keyed_by_number (answers st)"
  shows "(question_number m, m) \<in> set (answers (onmessage r (Json m) st))"
    and "keyed_by_number (answers (onmessage r (Json m) st))"
    and "filter (\<lambda>p. fst p = question_number m) (answers (onmessage r (Json m) st))
          = [(question_number m, m)]"
    and "filter (\<lambda>a. question_number a = question_number m) (sortedAnswers (onmessage r (Json m) st))
          = [m]"
proof -
  let ?st = "onmessage r (Json m) st"
  let ?n = "question_number m"
  have d: "distinct (map fst (answers st))"
    using assms(2) by (simp add: keyed_by_number_def)
  show mem: "(?n, m) \<in> set (answers ?st)"
    using assms(1) d by (simp add: onmessage_answer obj_put_set)
  show k: "keyed_by_number (answers ?st)"
    using assms(2) by (rule keyed_by_number_onmessage)
  then have d': "distinct (map fst (answers ?st))"
    by (simp add: keyed_by_number_def)
  show f: "filter (\<lambda>p. fst p = ?n) (answers ?st) = [(?n, m)]"
    using d' mem by (rule keyed_filter)
  have "filter (\<lambda>a. question_number a = ?n) (Object_values (answers ?st))
      = map snd (filter (\<lambda>p. question_number (snd p) = ?n) (answers ?st))"
    by (simp add: Object_values_def filter_map comp_def)
  also have "filter (\<lambda>p. question_number (snd p) = ?n) (answers ?st)
      = filter (\<lambda>p. fst p = ?n) (answers ?st)"
    using k by (intro filter_cong) (auto simp: keyed_by_number_def list_all_iff)
  finally have "filter (\<lambda>a. question_number a = ?n) (Object_values (answers ?st)) = [m]"
    using f by simp
  then show "filter (\<lambda>a. question_number a = ?n) (sortedAnswers ?st) = [m]"
    by (simp add: sortedAnswers_def filter_sort)
qed

lemma example_session:
  "typing (submit Plain example_form) = [(1, True), (2, True)]"
  "answers (submit Plain example_form) = []"
  by code_simp+

subsection \<open>The session fields under the socket callbacks\<close>

lemma socket_ops_fields [simp]:
  "answers (set_readyState sid rs st) = answers st"
  "typing (set_readyState sid rs st) = typing st"
  "summary (set_readyState sid rs st) = summary st"
  "sentInOrder (set_readyState sid rs st) = sentInOrder st"
  "sessionLoading (set_readyState sid rs st) = sessionLoading st"
  "answers (clearTimeout sid st) = answers st"
  "typing (clearTimeout sid st) = typing st"
  "summary (clearTimeout sid st) = summary st"
  "sentInOrder (clearTimeout sid st) = sentInOrder st"
  "sessionLoading (clearTimeout sid st) = sessionLoading st"
  "answers (socket_close sid st) = answers st"
  "typing (socket_close sid st) = typing st"
  "summary (socket_close sid st) = summary st"
  "sentInOrder (socket_close sid st) = sentInOrder st"
  "sessionLoading (socket_close sid st) = sessionLoading st"
  by (simp_all add: set_readyState_def clearTimeout_def socket_close_def)

lemma onopen_session:
  "answers (onopen r sid st) = answers st"
  "typing (onopen r sid st) = typing st"
  "summary (onopen r sid st) = summary st"
  "sentInOrder (onopen r sid st) = sentInOrder st"
  by (cases r; simp add: onopen_def socket_send_def show_toast_def Let_def
        split: option.splits readyState.splits)+

lemma onerror_session:
  "answers (onerror r sid st) = answers st"
  "typing (onerror r sid st) = typing st"
  "summary (onerror r sid st) = summary st"
  "sentInOrder (onerror r sid st) = sentInOrder st"
  "\<not> sessionLoading (onerror r sid st)"
  by (cases r; simp add: onerror_def show_toast_def)+

lemma onclose_session:
  "answers (onclose r sid code reason st) = answers st"
  "typing (onclose r sid code reason st) = typing st"
  "summary (onclose r sid code reason st) = summary st"
  "sentInOrder (onclose r sid code reason st) = sentInOrder st"
  "\<not> sessionLoading (onclose r sid code reason st)"
  by (cases r; simp add: onclose_def show_toast_def Let_def)+

lemma connectTimeout_callback_session:
  "answers (connectTimeout_callback sid st) = answers st"
  "typing (connectTimeout_callback sid st) = typing st"
  "summary (connectTimeout_callback sid st) = summary st"
  "sentInOrder (connectTimeout_callback sid st) = sentInOrder st"
  by (simp_all add: connectTimeout_callback_def show_toast_def)

lemma onmessage_not_answer:
  "(\<And>m. f = Json m \<Longrightarrow> msg_type m \<noteq> ''answer'') \<Longrightarrow>
   typing (onmessage r f st) = typing st \<and> answers (onmessage r f st) = answers st"
  by (cases f) (simp_all add: onmessage_def onmessage_try_def Let_def split: option.splits)

lemma handle_typing_other:
  assumes "\<And>sid m. e = Received sid (Json m) \<Longrightarrow> msg_type m \<noteq> ''answer''"
  shows "typing (handle r e st) = typing st"
proof (cases e)
  case (Received sid f)
  then have "\<And>m. f = Json m \<Longrightarrow> msg_type m \<noteq> ''answer''"
    using assms by simp
  then show ?thesis
    using Received by (simp add: onmessage_not_answer)
qed (simp_all add: onopen_session onerror_session onclose_session connectTimeout_callback_session)

lemma pending_answer:
  assumes "msg_type m = ''answer''" and "distinct (map fst (typing st))"
  shows "pendingNumbers (onmessage r (Json m) st) = pendingNumbers st - {question_number m}"
proof -
  have "set (typing (onmessage r (Json m) st)) =
      insert (question_number m, False) {p \<in> set (typing st). fst p \<noteq> question_number m}"
    using assms by (simp add: onmessage_answer obj_put_set)
  then show ?thesis
    by (auto simp: pendingNumbers_def rev_image_eqI)
qed

lemma typing_distinct_handle:
  "distinct (map fst (typing st)) \<Longrightarrow> distinct (map fst (typing (handle r e st)))"
  by (cases e)
     (simp_all add: onopen_session onerror_session onclose_session connectTimeout_callback_session
        typing_distinct_onmessage)

lemma pending_handle:
  assumes "distinct (map fst (typing st))" and "\<not> answers_number k e"
  shows "k \<in> pendingNumbers (handle r e st) \<longleftrightarrow> k \<in> pendingNumbers st"
proof (cases "\<exists>sid m. e = Received sid (Json m) \<and> msg_type m = ''answer''")
  case True
  then obtain sid m where e: "e = Received sid (Json m)" and ty: "msg_type m = ''answer''"
    by blast
  then have "question_number m \<noteq> k"
    using assms(2) by simp
  then show ?thesis
    using e pending_answer [OF ty assms(1), of r] by auto
next
  case False
  then have "typing (handle r e st) = typing st"
    by (intro handle_typing_other) blast
  then show ?thesis by (simp add: pendingNumbers_def)
qed

lemma pending_run:
  "distinct (map fst (typing st)) \<Longrightarrow> list_all (\<lambda>e. \<not> answers_number k e) es \<Longrightarrow>
   k \<in> pendingNumbers (run r es st) \<longleftrightarrow> k \<in> pendingNumbers st"
proof (induction es arbitrary: st)
  case Nil
  then show ?case by simp
next
  case (Cons e es)
  have "k \<in> pendingNumbers (run r es (handle r e st)) \<longleftrightarrow> k \<in> pendingNumbers (handle r e st)"
    using Cons.prems by (intro Cons.IH typing_distinct_handle) simp_all
  then show ?case
    using Cons.prems pending_handle [of st k e r] by simp
qed

lemma pending_submit:
  assumes "trim (background st) \<noteq> []" and "trimmedQuestions st \<noteq> []"
  shows "pendingNumbers (submit r st) = {1..int (length (trimmedQuestions st))}"
    and "distinct (map fst (typing (submit r st)))"
proof -
  let ?N = "length (trimmedQuestions st)"
  let ?es = "map (\<lambda>i. (int i + 1, True)) [0..<?N]"
  have d: "distinct (map fst ?es)"
    by (simp add: distinct_map comp_def inj_on_def)
  have ty: "typing (submit r st) = Object_fromEntries ?es"
    using assms by (simp add: submit_valid_fields)
  show "distinct (map fst (typing (submit r st)))"
    using fromEntries_set [OF d] ty by simp
  have "set (typing (submit r st)) = set ?es"
    using fromEntries_set [OF d] ty by simp
  then have "pendingNumbers (submit r st) = (\<lambda>i. int i + 1) ` {0..<?N}"
    by (auto simp: pendingNumbers_def image_iff)
  also have "\<dots> = {1..int ?N}"
  proof (intro set_eqI iffI)
    fix x assume "x \<in> (\<lambda>i. int i + 1) ` {0..<?N}"
    then show "x \<in> {1..int ?N}" by auto
  next
    fix x assume x: "x \<in> {1..int ?N}"
    then have "x = int (nat (x - 1)) + 1" and "nat (x - 1) \<in> {0..<?N}"
      by auto
    then show "x \<in> (\<lambda>i. int i + 1) ` {0..<?N}"
      by (rule image_eqI)
  qed
  finally show "pendingNumbers (submit r st) = {1..int ?N}" .
qed

subsection \<open>Sockets that are closing\<close>

lemma readyState_of_update_socket:
  "readyState_of (update_socket sid' f st) sid =
     (if sid = sid' \<and> sid < length (sockets st) then Some (readyState (f (sockets st ! sid)))
      else readyState_of st sid)"
  by (simp add: readyState_of_def update_socket_def)

lemma readyState_of_session [simp]:
  "readyState_of (st\<lparr>sessionLoading := b\<rparr>) sid = readyState_of st sid"
  "readyState_of (show_toast t st) sid = readyState_of st sid"
  "readyState_of (onmessage r f st) sid = readyState_of st sid"
  by (simp_all add: readyState_of_def show_toast_def)

lemma closing_stays:
  assumes "closing_or_closed st sid"
  shows "closing_or_closed (handle r e st) sid"
proof (cases e)
  case (Opened x)
  then show ?thesis
    using assms
    by (cases r)
       (auto simp: closing_or_closed_def onopen_def socket_send_def set_readyState_def
          clearTimeout_def show_toast_def readyState_of_update_socket Let_def
          readyState_of_def update_socket_def nth_list_update
          split: option.splits readyState.splits if_splits)
next
  case (Received x f)
  then show ?thesis using assms by (simp add: closing_or_closed_def)
next
  case (Errored x)
  then show ?thesis
    using assms
    by (cases r)
       (auto simp: closing_or_closed_def onerror_def clearTimeout_def readyState_of_def
          update_socket_def show_toast_def nth_list_update split: if_splits)
next
  case (Closed x code reason)
  then show ?thesis
    using assms
    by (cases r)
       (auto simp: closing_or_closed_def onclose_def clearTimeout_def set_readyState_def Let_def
          readyState_of_def update_socket_def show_toast_def nth_list_update split: if_splits)
next
  case (TimedOut x)
  then show ?thesis
    using assms
    by (auto simp: closing_or_closed_def connectTimeout_callback_def clearTimeout_def
          socket_close_def readyState_of_def update_socket_def show_toast_def nth_list_update
          split: if_splits)
qed

lemma closing_stays_run:
  "closing_or_closed st sid \<Longrightarrow> closing_or_closed (run r es st) sid"
  by (induction es arbitrary: st) (simp_all add: closing_stays)

subsection \<open>Reachable states\<close>

lemma editor_typing [simp]:
  "typing (setBackground v st) = typing st"
  "typing (addQuestion st) = typing st"
  "typing (removeQuestion idx st) = typing st"
  "typing (updateQuestion idx v st) = typing st"
  by (simp_all add: setBackground_def addQuestion_def removeQuestion_def updateQuestion_def)

lemma submit_invalid:
  "trim (background st) = [] \<or> trimmedQuestions st = [] \<Longrightarrow> typing (submit r st) = typing st"
  by (auto simp: submit_def handleSubmit_def show_toast_def)

text \<open>
  The two invariants hold in every state reached from a submission: the answers are keyed by
  their own numbers, and the typing map has distinct keys.
\<close>

lemma keyed_by_number_handle:
  "keyed_by_number (answers st) \<Longrightarrow> keyed_by_number (answers (handle r e st))"
  by (cases e)
     (simp_all add: onopen_session onerror_session onclose_session connectTimeout_callback_session
        keyed_by_number_onmessage)

lemma invariants_run:
  "keyed_by_number (answers st) \<Longrightarrow> distinct (map fst (typing st)) \<Longrightarrow>
   keyed_by_number (answers (run r es st)) \<and> distinct (map fst (typing (run r es st)))"
  by (induction es arbitrary: st) (simp_all add: keyed_by_number_handle typing_distinct_handle)

lemma invariants_reachable:
  assumes "trim (background st) \<noteq> []" and "trimmedQuestions st \<noteq> []"
  shows "keyed_by_number (answers (run r es (submit r st)))"
    and "distinct (map fst (typing (run r es (submit r st))))"
proof -
  have "keyed_by_number (answers (submit r st))"
    using assms by (simp add: submit_valid_fields keyed_by_number_def)
  moreover have "distinct (map fst (typing (submit r st)))"
    using assms by (rule pending_submit)
  ultimately show "keyed_by_number (answers (run r es (submit r st)))"
    and "distinct (map fst (typing (run r es (submit r st))))"
    using invariants_run by blast+
qed

text \<open>The revision without diagnostics arms no timer.\<close>

lemma plain_has_no_timer:
  assumes "trim (background st) \<noteq> []" and "trimmedQuestions st \<noteq> []" and "ws_valid st"
  shows "timer_of (submit Plain st) (length (sockets st)) = None"
  using submit_new_socket [OF assms, of Plain] assms(1,2)
  by (simp add: timer_of_def new_socket_def submit_valid_fields)

subsection \<open>The toasts of the error and close callbacks\<close>

lemma onerror_toasts:
  "toasts (onerror r sid st) = toasts st @
     [case r of
        Plain \<Rightarrow> \<lparr> title = ''Connection error'',
           description = ''Could not connect to IFRS Advisor. Please try again.'' \<rparr>
      | Diagnostic \<Rightarrow> \<lparr> title = ''Connection error'',
           description = ''WebSocket error occurred. Common causes: TLS certificate mismatch (IP vs domain), firewall, or server down.'' \<rparr>]"
  by (cases r) (simp_all add: onerror_def show_toast_def clearTimeout_def)

lemma onclose_toasts:
  "toasts (onclose r sid code reason st) =
     (case r of
        Plain \<Rightarrow> toasts st
      | Diagnostic \<Rightarrow>
          if code \<noteq> 1000 then
            toasts st @ [\<lparr> title = ''Connection closed ('' @ string_of_nat code @ '')'',
              description = (if reason \<noteq> [] then reason
                else ''The connection was closed unexpectedly. See console for diagnostics.'') \<rparr>]
          else toasts st)"
  by (cases r) (simp_all add: onclose_def show_toast_def clearTimeout_def Let_def)

lemma set_readyState_toasts [simp]:
  "toasts (set_readyState sid rs st) = toasts st"
  by (simp add: set_readyState_def)

lemma example_resubmitted_state:
  "readyState_of (run Plain [Opened 1, Received 1 (Json (example_answer 1 ''A''))]
      (submit Plain (submit Plain example_form))) 0 \<noteq> Some CLOSED"
  by code_simp

lemma example_resubmitted_answers:
  "answers (run Plain [Opened 1, Received 1 (Json (example_answer 1 ''A''))]
      (submit Plain (submit Plain example_form))) = [(1, example_answer 1 ''A'')]"
  by code_simp

lemma example_resubmitted_toasts:
  "toasts (run Plain [Opened 1, Received 1 (Json (example_answer 1 ''A''))]
      (submit Plain (submit Plain example_form))) = []"
  by code_simp

section \<open>The claims\<close>

subsection \<open>The sorted view of the answers (C1)\<close>

text \<open>
  Claim C1. After a valid submission with N surviving questions, let N answer messages whose
  question numbers are a permutation of 1..N be processed in any order. Then \<open>sortedAnswers\<close>
  is the list of these messages sorted by question number, its numbers read 1..N, and any other
  delivery order of the same messages gives the same list.
\<close>

theorem ordering_invariant:
  assumes "trim (background st) \<noteq> []" and "trimmedQuestions st \<noteq> []"
    and "list_all (\<lambda>m. msg_type m = ''answer'') ms"
    and "mset (map question_number ms) = mset [1..int (length (trimmedQuestions st))]"
    and "mset ms' = mset ms"
  shows "sortedAnswers (deliver r ms (submit r st)) = sort_key question_number ms
    \<and> map question_number (sortedAnswers (deliver r ms (submit r st)))
        = [1..int (length (trimmedQuestions st))]
    \<and> sortedAnswers (deliver r ms' (submit r st)) = sortedAnswers (deliver r ms (submit r st))"
proof -
  let ?qn = question_number
  let ?N = "int (length (trimmedQuestions st))"
  have view: "sortedAnswers (deliver r xs (submit r st)) = sort_key ?qn ms"
    if ty: "list_all (\<lambda>m. msg_type m = ''answer'') xs" and perm: "mset xs = mset ms" for xs
  proof -
    have qns: "mset (map ?qn xs) = mset [1..?N]"
      using perm assms(4) by (metis mset_map)
    have dq: "distinct (map ?qn xs)"
      using qns by (metis distinct_upto mset_eq_imp_distinct_iff)
    let ?es = "map (\<lambda>m. (?qn m, m)) xs"
    have des: "distinct (map fst ?es)"
      using dq by (simp add: comp_def)
    have a0: "answers (submit r st) = []"
      using assms(1,2) by (simp add: submit_valid_fields)
    have ans: "answers (deliver r xs (submit r st)) =
        foldl (\<lambda>obj e. obj_put (fst e) (snd e) obj) [] ?es"
      using deliver_answers [OF ty, of r "submit r st"] a0 by simp
    have st: "set (answers (deliver r xs (submit r st))) = set ?es"
      and di: "distinct (map fst (answers (deliver r xs (submit r st))))"
      using fold_put_set [of "[]" ?es] des ans by simp_all
    let ?vs = "Object_values (answers (deliver r xs (submit r st)))"
    have "keyed_by_number (answers (deliver r xs (submit r st)))"
      using st di by (auto simp: keyed_by_number_def list_all_iff)
    then have "map ?qn ?vs = map fst (answers (deliver r xs (submit r st)))"
      by (rule keyed_values)
    then have "distinct (map ?qn ?vs)"
      using di by simp
    then have dvs: "distinct ?vs"
      by (simp add: distinct_map)
    have dxs: "distinct xs"
      using dq by (simp add: distinct_map)
    have "set ?vs = set xs"
      unfolding Object_values_def using st by (force simp: image_iff)
    then have m: "mset ?vs = mset ms"
      using dvs dxs perm by (metis set_eq_iff_mset_eq_distinct)
    have inj: "inj_on ?qn (set ?vs)"
      using dq \<open>set ?vs = set xs\<close> by (simp add: distinct_map)
    have "sort_key ?qn ?vs = sort_key ?qn ms"
    proof (rule sort_key_inj_key_eq)
      show "mset ?vs = mset (sort_key ?qn ms)" using m by simp
      show "inj_on ?qn (set ?vs)" by (rule inj)
      show "sorted (map ?qn (sort_key ?qn ms))" by (rule sorted_sort_key)
    qed
    then show ?thesis by (simp add: sortedAnswers_def)
  qed
  have ty': "list_all (\<lambda>m. msg_type m = ''answer'') ms'"
    using assms(3,5) by (metis list_all_iff mset_eq_setD)
  have v1: "sortedAnswers (deliver r ms (submit r st)) = sort_key ?qn ms"
    using view [OF assms(3)] by simp
  have v2: "sortedAnswers (deliver r ms' (submit r st)) = sort_key ?qn ms"
    using view [OF ty' assms(5)] .
  have "map ?qn (sort_key ?qn ms) = [1..?N]"
  proof (rule sorted_distinct_set_unique)
    show "sorted (map ?qn (sort_key ?qn ms))" by (rule sorted_sort_key)
    have e: "mset (map ?qn (sort_key ?qn ms)) = mset [1..?N]"
      using assms(4) by (metis mset_map mset_sort)
    show "distinct (map ?qn (sort_key ?qn ms))"
      using e by (metis distinct_upto mset_eq_imp_distinct_iff)
    show "set (map ?qn (sort_key ?qn ms)) = set [1..?N]"
      using e by (rule mset_eq_setD)
  qed simp_all
  then show ?thesis
    using v1 v2 by simp
qed

theorem ordering_invariant_witness:
  "trim (background example_form) \<noteq> [] \<and> trimmedQuestions example_form \<noteq> []
   \<and> sortedAnswers (deliver Plain [example_answer 2 ''B'', example_answer 1 ''A'']
         (submit Plain example_form)) = [example_answer 1 ''A'', example_answer 2 ''B'']
   \<and> sortedAnswers (deliver Plain [example_answer 1 ''A'', example_answer 2 ''B'']
         (submit Plain example_form)) = [example_answer 1 ''A'', example_answer 2 ''B'']"
proof -
  have h1: "trim (background example_form) \<noteq> []"
    and h2: "trimmedQuestions example_form \<noteq> []"
    by (simp_all add: example_form_valid)
  have h3: "list_all (\<lambda>m. msg_type m = ''answer'')
      [example_answer 2 ''B'', example_answer 1 ''A'']"
    by (simp add: example_answer_def)
  have h4: "mset (map question_number [example_answer 2 ''B'', example_answer 1 ''A''])
      = mset [1..int (length (trimmedQuestions example_form))]"
    by (simp add: example_answer_def example_form_valid upto.simps)
  have h5: "mset [example_answer 1 ''A'', example_answer 2 ''B'']
      = mset [example_answer 2 ''B'', example_answer 1 ''A'']"
    by simp
  have s: "sort_key question_number [example_answer 2 ''B'', example_answer 1 ''A'']
      = [example_answer 1 ''A'', example_answer 2 ''B'']"
    by (simp add: example_answer_def)
  show ?thesis
    using ordering_invariant [OF h1 h2 h3 h4 h5, of Plain] h1 h2 s by simp
qed

subsection \<open>Overwriting an answer (C5)\<close>

text \<open>
  Claim C5. Two answer messages for the same question number n, processed one after the other,
  leave exactly one entry for n in \<open>answers\<close>, holding the second message; the answers and
  the typing map are the ones that processing the second message alone gives, and the sorted
  view has exactly one entry with number n, the second message.
\<close>

theorem idempotent_overwrite:
  assumes "msg_type m1 = ''answer''" and "msg_type m2 = ''answer''"
    and "question_number m1 = n" and "question_number m2 = n"
    and "keyed_by_number (answers st)"
  shows "filter (\<lambda>p. fst p = n) (answers (onmessage r (Json m2) (onmessage r (Json m1) st)))
           = [(n, m2)]
    \<and> map_of (answers (onmessage r (Json m2) (onmessage r (Json m1) st))) n = Some m2
    \<and> answers (onmessage r (Json m2) (onmessage r (Json m1) st))
         = answers (onmessage r (Json m2) st)
    \<and> typing (onmessage r (Json m2) (onmessage r (Json m1) st))
         = typing (onmessage r (Json m2) st)
    \<and> filter (\<lambda>a. question_number a = n)
         (sortedAnswers (onmessage r (Json m2) (onmessage r (Json m1) st))) = [m2]
    \<and> sortedAnswers (onmessage r (Json m2) (onmessage r (Json m1) st))
         = sortedAnswers (onmessage r (Json m2) st)"
proof -
  let ?s1 = "onmessage r (Json m1) st"
  let ?s12 = "onmessage r (Json m2) ?s1"
  have k1: "keyed_by_number (answers ?s1)"
    using assms(5) by (rule keyed_by_number_onmessage)
  note st = stored_answer [OF assms(2) k1, of r, unfolded assms(4)]
  have a: "answers ?s12 = answers (onmessage r (Json m2) st)"
    using assms(1-4) by (simp add: onmessage_answer obj_put_twice)
  have t: "typing ?s12 = typing (onmessage r (Json m2) st)"
    using assms(1-4) by (simp add: onmessage_answer obj_put_twice)
  have "distinct (map fst (answers ?s12))"
    using st(2) by (simp add: keyed_by_number_def)
  then have m: "map_of (answers ?s12) n = Some m2"
    using st(1) by simp
  show ?thesis
    using st(3,4) m a t by (simp add: sortedAnswers_def)
qed

theorem idempotent_overwrite_witness:
  "msg_type (example_answer 1 ''first'') = ''answer''
   \<and> keyed_by_number (answers (deliver Plain [example_answer 2 ''B''] (submit Plain example_form)))
   \<and> filter (\<lambda>p. fst p = 1)
        (answers (onmessage Plain (Json (example_answer 1 ''second''))
          (onmessage Plain (Json (example_answer 1 ''first''))
            (deliver Plain [example_answer 2 ''B''] (submit Plain example_form)))))
       = [(1, example_answer 1 ''second'')]
   \<and> sortedAnswers (onmessage Plain (Json (example_answer 1 ''second''))
          (onmessage Plain (Json (example_answer 1 ''first''))
            (deliver Plain [example_answer 2 ''B''] (submit Plain example_form))))
       = [example_answer 1 ''second'', example_answer 2 ''B'']"
proof -
  let ?st = "deliver Plain [example_answer 2 ''B''] (submit Plain example_form)"
  have h1: "msg_type (example_answer 1 ''first'') = ''answer''"
    and h2: "msg_type (example_answer 1 ''second'') = ''answer''"
    and h3: "question_number (example_answer 1 ''first'') = 1"
    and h4: "question_number (example_answer 1 ''second'') = 1"
    by (simp_all add: example_answer_def)
  have h5: "keyed_by_number (answers ?st)"
    by code_simp
  have e: "sortedAnswers (onmessage Plain (Json (example_answer 1 ''second'')) ?st)
      = [example_answer 1 ''second'', example_answer 2 ''B'']"
    by code_simp
  note t = idempotent_overwrite [OF h1 h2 h3 h4 h5, of Plain]
  have f: "filter (\<lambda>p. fst p = 1)
        (answers (onmessage Plain (Json (example_answer 1 ''second''))
          (onmessage Plain (Json (example_answer 1 ''first'')) ?st)))
       = [(1, example_answer 1 ''second'')]"
    using t by blast
  have g: "sortedAnswers (onmessage Plain (Json (example_answer 1 ''second''))
          (onmessage Plain (Json (example_answer 1 ''first'')) ?st))
       = sortedAnswers (onmessage Plain (Json (example_answer 1 ''second'')) ?st)"
    using t by blast
  show ?thesis
    using h1 h5 f g e by (simp del: deliver.simps)
qed

subsection \<open>Question numbers are not range-checked (C9)\<close>

text \<open>
  Claim C9. The handler stores an answer message under whatever integer its question number is,
  with no comparison against the number of submitted questions: the message is in \<open>answers\<close>
  under that number and in the sorted view, which stays sorted with distinct numbers; the typing
  entry of that number is false, so the number is not pending; and the number is a key of both
  maps afterwards, whether or not it was one before.
\<close>

theorem no_range_check:
  assumes "msg_type m = ''answer''"
    and "keyed_by_number (answers st)" and "distinct (map fst (typing st))"
  shows "map_of (answers (onmessage r (Json m) st)) (question_number m) = Some m
    \<and> m \<in> set (sortedAnswers (onmessage r (Json m) st))
    \<and> sorted (map question_number (sortedAnswers (onmessage r (Json m) st)))
    \<and> distinct (map question_number (sortedAnswers (onmessage r (Json m) st)))
    \<and> map_of (typing (onmessage r (Json m) st)) (question_number m) = Some False
    \<and> question_number m \<notin> pendingNumbers (onmessage r (Json m) st)
    \<and> fst ` set (answers (onmessage r (Json m) st))
         = insert (question_number m) (fst ` set (answers st))
    \<and> fst ` set (typing (onmessage r (Json m) st))
         = insert (question_number m) (fst ` set (typing st))"
proof -
  let ?st = "onmessage r (Json m) st"
  let ?n = "question_number m"
  note sa = stored_answer [OF assms(1,2), of r]
  have d: "distinct (map fst (answers ?st))"
    using sa(2) by (simp add: keyed_by_number_def)
  have a: "map_of (answers ?st) ?n = Some m"
    using d sa(1) by simp
  have b: "m \<in> set (sortedAnswers ?st)"
    using sa(1) by (force simp: sortedAnswers_def Object_values_def)
  have c: "sorted (map question_number (sortedAnswers ?st))"
    "distinct (map question_number (sortedAnswers ?st))"
    using sorted_view [OF sa(2)] by (simp_all add: sortedAnswers_def)
  have dt: "distinct (map fst (typing ?st))"
    using assms(3) by (rule typing_distinct_onmessage)
  have ts: "set (typing ?st) = insert (?n, False) {p \<in> set (typing st). fst p \<noteq> ?n}"
    using assms(1,3) by (simp add: onmessage_answer obj_put_set)
  have e: "map_of (typing ?st) ?n = Some False"
    using dt ts by simp
  have f: "?n \<notin> pendingNumbers ?st"
    by (auto simp: pendingNumbers_def ts)
  have g: "fst ` set (answers ?st) = insert ?n (fst ` set (answers st))"
    "fst ` set (typing ?st) = insert ?n (fst ` set (typing st))"
    using assms(1) by (simp_all add: onmessage_answer obj_put_keys)
  show ?thesis
    using a b c e f g by simp
qed

theorem no_range_check_witness:
  "pendingNumbers (submit Plain example_form) = {1, 2}
   \<and> fst ` set (typing (onmessage Plain (Json (example_answer 0 ''zero'')) (submit Plain example_form)))
       = {0, 1, 2}
   \<and> example_answer 0 ''zero''
       \<in> set (sortedAnswers (onmessage Plain (Json (example_answer 0 ''zero'')) (submit Plain example_form)))
   \<and> fst ` set (typing (onmessage Plain (Json (example_answer (- 3) ''neg'')) (submit Plain example_form)))
       = {- 3, 1, 2}
   \<and> map_of (typing (onmessage Plain (Json (example_answer (- 3) ''neg'')) (submit Plain example_form)))
        (- 3) = Some False
   \<and> fst ` set (typing (onmessage Plain (Json (example_answer 7 ''far'')) (submit Plain example_form)))
       = {7, 1, 2}
   \<and> map_of (answers (onmessage Plain (Json (example_answer 7 ''far'')) (submit Plain example_form)))
        7 = Some (example_answer 7 ''far'')"
proof -
  let ?st = "submit Plain example_form"
  have ty: "msg_type (example_answer n a) = ''answer''"
    and qn: "question_number (example_answer n a) = n" for n a
    by (simp_all add: example_answer_def)
  have k: "keyed_by_number (answers ?st)"
    by (simp add: example_session keyed_by_number_def)
  have d: "distinct (map fst (typing ?st))"
    by (simp add: example_session)
  have p: "pendingNumbers ?st = {1, 2}"
    by (auto simp: pendingNumbers_def example_session)
  show ?thesis
    using no_range_check [where r = Plain, OF ty [where n = 0 and a = "''zero''"] k d]
      no_range_check [where r = Plain, OF ty [where n = "- 3" and a = "''neg''"] k d]
      no_range_check [where r = Plain, OF ty [where n = 7 and a = "''far''"] k d] p
    by (simp add: qn example_session)
qed

subsection \<open>The pending set (C6)\<close>

text \<open>
  Claim C6. Right after a valid submission with N surviving questions the pending numbers are
  1..N. Processing an answer message for number k removes k from them and nothing else (nothing
  at all when k was not pending). Any event that is not an answer message for k leaves the
  membership of k as it was, so a number that is pending stays pending through any sequence of
  events that holds no answer for it; editing the form and a rejected submission leave the
  pending numbers as they are. The typing map of the state has distinct keys, as every state
  reached from a submission has.
\<close>

theorem pending_set_consistency:
  assumes "distinct (map fst (typing st))"
  shows "(trim (background st0) \<noteq> [] \<and> trimmedQuestions st0 \<noteq> [] \<longrightarrow>
        pendingNumbers (submit r st0) = {1..int (length (trimmedQuestions st0))}
        \<and> distinct (map fst (typing (submit r st0))))
    \<and> (msg_type m = ''answer'' \<longrightarrow>
        pendingNumbers (onmessage r (Json m) st) = pendingNumbers st - {question_number m})
    \<and> (\<not> answers_number k e \<longrightarrow>
        (k \<in> pendingNumbers (handle r e st) \<longleftrightarrow> k \<in> pendingNumbers st))
    \<and> (k \<in> pendingNumbers st \<and> list_all (\<lambda>e. \<not> answers_number k e) es \<longrightarrow>
        k \<in> pendingNumbers (run r es st))
    \<and> pendingNumbers (setBackground v st) = pendingNumbers st
    \<and> pendingNumbers (addQuestion st) = pendingNumbers st
    \<and> pendingNumbers (removeQuestion idx st) = pendingNumbers st
    \<and> pendingNumbers (updateQuestion idx v st) = pendingNumbers st
    \<and> (trim (background st) = [] \<or> trimmedQuestions st = [] \<longrightarrow>
        pendingNumbers (submit r st) = pendingNumbers st)"
proof -
  have "pendingNumbers (submit r st) = pendingNumbers st"
    if "trim (background st) = [] \<or> trimmedQuestions st = []"
    using submit_invalid [OF that, of r] by (simp add: pendingNumbers_def)
  then show ?thesis
    using assms pending_submit [of st0 r] pending_answer [of m st r] pending_handle [of st k e r]
      pending_run [of st k es r]
    by (simp add: pendingNumbers_def)
qed

theorem pending_set_consistency_witness:
  "trim (background example_form) \<noteq> [] \<and> trimmedQuestions example_form \<noteq> []
   \<and> distinct (map fst (typing (submit Plain example_form)))
   \<and> pendingNumbers (submit Plain example_form) = {1..2}
   \<and> pendingNumbers (onmessage Plain (Json (example_answer 2 ''B'')) (submit Plain example_form))
       = {1..2} - {2}
   \<and> 1 \<in> pendingNumbers (handle Plain (Closed 0 1006 []) (submit Plain example_form))
   \<and> 1 \<in> pendingNumbers (run Plain
        [Opened 0, Received 0 (Json (example_answer 2 ''B'')), Received 0 Unparseable,
         Received 0 (Json example_summary), Closed 0 1000 []]
        (submit Plain example_form))"
proof -
  let ?st = "submit Plain example_form"
  let ?es = "[Opened 0, Received 0 (Json (example_answer 2 ''B'')), Received 0 Unparseable,
         Received 0 (Json example_summary), Closed 0 1000 []]"
  have h1: "trim (background example_form) \<noteq> []"
    and h2: "trimmedQuestions example_form \<noteq> []"
    by (simp_all add: example_form_valid)
  have d: "distinct (map fst (typing ?st))"
    by (simp add: example_session)
  have ty: "msg_type (example_answer 2 ''B'') = ''answer''"
    and qn: "question_number (example_answer 2 ''B'') = 2"
    by (simp_all add: example_answer_def)
  have na: "\<not> answers_number 1 (Closed 0 1006 [])"
    by simp
  have la: "list_all (\<lambda>e. \<not> answers_number 1 e) ?es"
    by (simp add: example_answer_def example_summary_def)
  note t = pending_set_consistency [OF d, where ?st0.0 = example_form and r = Plain
      and m = "example_answer 2 ''B''" and k = 1 and e = "Closed 0 1006 []" and es = ?es]
  have c1: "pendingNumbers ?st = {1..2}"
    using t h1 h2 by (simp add: example_form_valid)
  have c2: "pendingNumbers (onmessage Plain (Json (example_answer 2 ''B'')) ?st)
      = pendingNumbers ?st - {2}"
    using t ty qn by metis
  have c3: "1 \<in> pendingNumbers (handle Plain (Closed 0 1006 []) ?st) \<longleftrightarrow> 1 \<in> pendingNumbers ?st"
    using t na by blast
  have c4: "1 \<in> pendingNumbers ?st \<Longrightarrow> 1 \<in> pendingNumbers (run Plain ?es ?st)"
    using t la by blast
  show ?thesis
    using h1 h2 d c1 c2 c3 c4 by (simp del: handle.simps run.simps)
qed

subsection \<open>Submitting again (C2)\<close>

text \<open>
  Claim C2, as amended. A valid submission made while \<open>ws\<close> holds an earlier socket starts
  the new session with no answers, no summary, no ordering hint, the pending numbers 1..N' of
  the new questions and the loading indicator on, and \<open>close()\<close> is called on the earlier
  socket. From then on, after any sequence of events: no message event of the earlier socket is
  dispatched; an error or close event of the earlier socket leaves the answers, the typing map,
  the summary and the ordering hint as they are at that moment; and it is not ignored: as long
  as the earlier socket is not closed, it turns the loading indicator off and shows the toast of
  its handler (the error toast of the revision; for a close, no toast in the revision without
  diagnostics and "Connection closed (code)" in the other when the code is not 1000). Once the
  earlier socket is closed it fires neither event.
\<close>

theorem resubmission_reset:
  assumes "trim (background st) \<noteq> []" and "trimmedQuestions st \<noteq> []"
    and "ws st = Some old" and "old < length (sockets st)"
  shows "answers (submit r st) = [] \<and> summary (submit r st) = None
    \<and> sentInOrder (submit r st) = None
    \<and> pendingNumbers (submit r st) = {1..int (length (trimmedQuestions st))}
    \<and> sessionLoading (submit r st)
    \<and> ws (submit r st) = Some (length (sockets st))
    \<and> closing_or_closed (submit r st) old
    \<and> (readyState_of st old \<noteq> Some CLOSED \<longrightarrow>
         readyState_of (submit r st) old = Some CLOSING)
    \<and> closing_or_closed (run r es (submit r st)) old
    \<and> handle r (Received old f) (run r es (submit r st)) = run r es (submit r st)
    \<and> answers (handle r (Closed old code reason) (run r es (submit r st)))
         = answers (run r es (submit r st))
    \<and> typing (handle r (Closed old code reason) (run r es (submit r st)))
         = typing (run r es (submit r st))
    \<and> summary (handle r (Closed old code reason) (run r es (submit r st)))
         = summary (run r es (submit r st))
    \<and> sentInOrder (handle r (Closed old code reason) (run r es (submit r st)))
         = sentInOrder (run r es (submit r st))
    \<and> answers (handle r (Errored old) (run r es (submit r st)))
         = answers (run r es (submit r st))
    \<and> typing (handle r (Errored old) (run r es (submit r st)))
         = typing (run r es (submit r st))
    \<and> summary (handle r (Errored old) (run r es (submit r st)))
         = summary (run r es (submit r st))
    \<and> sentInOrder (handle r (Errored old) (run r es (submit r st)))
         = sentInOrder (run r es (submit r st))
    \<and> (readyState_of (run r es (submit r st)) old \<noteq> Some CLOSED \<longrightarrow>
         \<not> sessionLoading (handle r (Closed old code reason) (run r es (submit r st)))
         \<and> \<not> sessionLoading (handle r (Errored old) (run r es (submit r st)))
         \<and> toasts (handle r (Errored old) (run r es (submit r st))) =
             toasts (run r es (submit r st)) @
               [case r of
                  Plain \<Rightarrow> \<lparr> title = ''Connection error'',
                     description = ''Could not connect to IFRS Advisor. Please try again.'' \<rparr>
                | Diagnostic \<Rightarrow> \<lparr> title = ''Connection error'',
                     description = ''WebSocket error occurred. Common causes: TLS certificate mismatch (IP vs domain), firewall, or server down.'' \<rparr>]
         \<and> toasts (handle r (Closed old code reason) (run r es (submit r st))) =
             (case r of
                Plain \<Rightarrow> toasts (run r es (submit r st))
              | Diagnostic \<Rightarrow>
                  if code \<noteq> 1000 then
                    toasts (run r es (submit r st)) @
                      [\<lparr> title = ''Connection closed ('' @ string_of_nat code @ '')'',
                        description = (if reason \<noteq> [] then reason
                          else ''The connection was closed unexpectedly. See console for diagnostics.'') \<rparr>]
                  else toasts (run r es (submit r st))))
    \<and> (readyState_of (run r es (submit r st)) old = Some CLOSED \<longrightarrow>
         handle r (Closed old code reason) (run r es (submit r st)) = run r es (submit r st)
         \<and> handle r (Errored old) (run r es (submit r st)) = run r es (submit r st))"
proof -
  let ?s = "submit r st"
  let ?t = "run r es ?s"
  note f = submit_valid_fields [OF assms(1,2), of r]
  have p: "pendingNumbers ?s = {1..int (length (trimmedQuestions st))}"
    using assms(1,2) by (rule pending_submit)
  have rs: "readyState_of ?s old =
      Some (if readyState (sockets st ! old) = CLOSED then CLOSED else CLOSING)"
    using assms by (rule submit_old_socket)
  then have c: "closing_or_closed ?s old"
    by (simp add: closing_or_closed_def)
  have c': "readyState_of ?s old = Some CLOSING" if "readyState_of st old \<noteq> Some CLOSED"
    using that assms(4) rs by (simp add: readyState_of_def)
  have ct: "closing_or_closed ?t old"
    using c by (rule closing_stays_run)
  then have m: "handle r (Received old f) ?t = ?t"
    by (auto simp: closing_or_closed_def)
  have q: "answers (handle r (Closed old code reason) ?t) = answers ?t"
    "typing (handle r (Closed old code reason) ?t) = typing ?t"
    "summary (handle r (Closed old code reason) ?t) = summary ?t"
    "sentInOrder (handle r (Closed old code reason) ?t) = sentInOrder ?t"
    "answers (handle r (Errored old) ?t) = answers ?t"
    "typing (handle r (Errored old) ?t) = typing ?t"
    "summary (handle r (Errored old) ?t) = summary ?t"
    "sentInOrder (handle r (Errored old) ?t) = sentInOrder ?t"
    by (simp_all add: onclose_session onerror_session)
  have l: "\<not> sessionLoading (handle r (Closed old code reason) ?t)
      \<and> \<not> sessionLoading (handle r (Errored old) ?t)
      \<and> toasts (handle r (Errored old) ?t) = toasts (onerror r old ?t)
      \<and> toasts (handle r (Closed old code reason) ?t) = toasts (onclose r old code reason ?t)"
    if "readyState_of ?t old \<noteq> Some CLOSED"
  proof -
    from that ct have "readyState_of ?t old = Some CLOSING"
      by (simp add: closing_or_closed_def)
    then show ?thesis
      by (cases r) (simp_all add: onclose_session onerror_session onclose_toasts)
  qed
  have z: "handle r (Closed old code reason) ?t = ?t \<and> handle r (Errored old) ?t = ?t"
    if "readyState_of ?t old = Some CLOSED"
    using that by simp
  show ?thesis
    using f(1-5) p c c' ct m q l z
    by (simp add: onerror_toasts onclose_toasts del: handle.simps)
qed

theorem resubmission_reset_witness:
  "trim (background (submit Plain example_form)) \<noteq> []
   \<and> trimmedQuestions (submit Plain example_form) \<noteq> []
   \<and> ws (submit Plain example_form) = Some 0
   \<and> 0 < length (sockets (submit Plain example_form))
   \<and> readyState_of (run Plain [Opened 1, Received 1 (Json (example_answer 1 ''A''))]
        (submit Plain (submit Plain example_form))) 0 \<noteq> Some CLOSED
   \<and> answers (submit Plain (submit Plain example_form)) = []
   \<and> pendingNumbers (submit Plain (submit Plain example_form)) = {1..2}
   \<and> handle Plain (Received 0 (Json (example_answer 2 ''late'')))
        (run Plain [Opened 1, Received 1 (Json (example_answer 1 ''A''))]
          (submit Plain (submit Plain example_form)))
       = run Plain [Opened 1, Received 1 (Json (example_answer 1 ''A''))]
          (submit Plain (submit Plain example_form))
   \<and> answers (handle Plain (Closed 0 1005 [])
        (run Plain [Opened 1, Received 1 (Json (example_answer 1 ''A''))]
          (submit Plain (submit Plain example_form))))
       = [(1, example_answer 1 ''A'')]
   \<and> \<not> sessionLoading (handle Plain (Closed 0 1005 [])
        (run Plain [Opened 1, Received 1 (Json (example_answer 1 ''A''))]
          (submit Plain (submit Plain example_form))))
   \<and> answers (handle Plain (Errored 0)
        (run Plain [Opened 1, Received 1 (Json (example_answer 1 ''A''))]
          (submit Plain (submit Plain example_form))))
       = [(1, example_answer 1 ''A'')]
   \<and> toasts (handle Plain (Errored 0)
        (run Plain [Opened 1, Received 1 (Json (example_answer 1 ''A''))]
          (submit Plain (submit Plain example_form))))
       = [\<lparr> title = ''Connection error'',
            description = ''Could not connect to IFRS Advisor. Please try again.'' \<rparr>]"
proof -
  let ?st = "submit Plain example_form"
  let ?es = "[Opened 1, Received 1 (Json (example_answer 1 ''A''))]"
  let ?t = "run Plain ?es (submit Plain ?st)"
  have h1: "trim (background ?st) \<noteq> []"
    by code_simp
  have tq: "trimmedQuestions ?st = [''Is this a finance lease?'', ''What discount rate applies?'']"
    by code_simp
  then have h2: "trimmedQuestions ?st \<noteq> []"
    by simp
  have h3: "ws ?st = Some 0"
    by code_simp
  have h4: "0 < length (sockets ?st)"
    by code_simp
  note h5 = example_resubmitted_state
  note a = example_resubmitted_answers
  note b = example_resubmitted_toasts
  note t = resubmission_reset [OF h1 h2 h3 h4, where r = Plain and es = ?es
      and f = "Json (example_answer 2 ''late'')" and code = 1005 and reason = "[]"]
  have c1: "answers (submit Plain ?st) = []"
    using t by blast
  have "pendingNumbers (submit Plain ?st) = {1..int (length (trimmedQuestions ?st))}"
    using t by blast
  then have c2: "pendingNumbers (submit Plain ?st) = {1..2}"
    unfolding tq by simp
  have c3: "handle Plain (Received 0 (Json (example_answer 2 ''late''))) ?t = ?t"
    using t by blast
  have "answers (handle Plain (Closed 0 1005 []) ?t) = answers ?t"
    using t by blast
  then have c4: "answers (handle Plain (Closed 0 1005 []) ?t) = [(1, example_answer 1 ''A'')]"
    unfolding a .
  have c5: "\<not> sessionLoading (handle Plain (Closed 0 1005 []) ?t)"
    using t h5 by blast
  have "answers (handle Plain (Errored 0) ?t) = answers ?t"
    using t by blast
  then have c6: "answers (handle Plain (Errored 0) ?t) = [(1, example_answer 1 ''A'')]"
    unfolding a .
  have "toasts (handle Plain (Errored 0) ?t) =
      toasts ?t @
        [case Plain of
           Plain \<Rightarrow> \<lparr> title = ''Connection error'',
              description = ''Could not connect to IFRS Advisor. Please try again.'' \<rparr>
         | Diagnostic \<Rightarrow> \<lparr> title = ''Connection error'',
              description = ''WebSocket error occurred. Common causes: TLS certificate mismatch (IP vs domain), firewall, or server down.'' \<rparr>]"
    using t h5 by blast
  then have c7: "toasts (handle Plain (Errored 0) ?t) =
      [\<lparr> title = ''Connection error'',
         description = ''Could not connect to IFRS Advisor. Please try again.'' \<rparr>]"
    unfolding b by simp
  from h1 h2 h3 h4 h5 c1 c2 c3 c4 c5 c6 c7 show ?thesis
    by (intro conjI)
qed

text \<open>
  Two submissions of the same form: the first socket is superseded by the second, its close
  event arrives afterwards (code 1005, as after \<open>close()\<close> without a code) and turns the
  loading indicator of the second session off.
\<close>

theorem stale_close_counterexample:
  "ws (submit Plain example_form) = Some 0
   \<and> ws (submit Plain (submit Plain example_form)) = Some 1
   \<and> sessionLoading (submit Plain (submit Plain example_form))
   \<and> \<not> sessionLoading (handle Plain (Closed 0 1005 []) (submit Plain (submit Plain example_form)))"
  by code_simp

subsection \<open>Validation (C4)\<close>

text \<open>
  Claim C4, as amended. The two checks of \<open>handleSubmit\<close> run in order. A background that
  trims to empty shows the toast "Background is required", whatever the questions are; a
  background that does not trim to empty together with questions that all trim to empty shows
  the toast "Add at least one question". In both cases the click changes nothing but the list
  of toasts: no socket is created and no session state is modified.
\<close>

theorem validation_gating:
  "(trim (background st) = [] \<longrightarrow>
      submit r st = st\<lparr>toasts := toasts st @ [\<lparr> title = ''Background is required'',
                     description = ''Please describe your IFRS scenario.'' \<rparr>]\<rparr>)
   \<and> (trim (background st) \<noteq> [] \<and> trimmedQuestions st = [] \<longrightarrow>
      submit r st = st\<lparr>toasts := toasts st @ [\<lparr> title = ''Add at least one question'',
                     description = ''Please include one or more questions.'' \<rparr>]\<rparr>)"
  by (simp add: submit_def handleSubmit_def ws_cleanup_def show_toast_def)

theorem validation_gating_witness:
  "trim (background initial) = []
   \<and> submit Plain initial = initial\<lparr>toasts := [\<lparr> title = ''Background is required'',
                     description = ''Please describe your IFRS scenario.'' \<rparr>]\<rparr>
   \<and> trim (background example_blank_questions) \<noteq> []
   \<and> trimmedQuestions example_blank_questions = []
   \<and> submit Plain example_blank_questions =
       example_blank_questions\<lparr>toasts := [\<lparr> title = ''Add at least one question'',
                     description = ''Please include one or more questions.'' \<rparr>]\<rparr>"
proof -
  have a: "trim (background initial) = []"
    by (simp add: initial_def trim_def)
  have b: "trim (background example_blank_questions) \<noteq> []"
    by (simp add: example_blank_questions_def initial_def trim_def is_whitespace_def)
  have c: "trimmedQuestions example_blank_questions = []"
    by (simp add: example_blank_questions_def initial_def trimmedQuestions_def trim_def
        is_whitespace_def)
  have d: "toasts initial = []" "toasts example_blank_questions = []"
    by (simp_all add: example_blank_questions_def initial_def)
  show ?thesis
    using validation_gating [where st = initial and r = Plain]
      validation_gating [where st = example_blank_questions and r = Plain] a b c d
    by simp
qed

text \<open>
  The untouched form has an empty background and one empty question: its questions all trim
  to empty, and the toast shown is the one for the background.
\<close>

theorem blank_form_counterexample:
  "trimmedQuestions initial = []
   \<and> toasts (submit Plain initial) =
       [\<lparr> title = ''Background is required'',
          description = ''Please describe your IFRS scenario.'' \<rparr>]"
  by code_simp

subsection \<open>Frames that do not parse (C8)\<close>

text \<open>
  Claim C8, as amended. When \<open>JSON.parse\<close> throws, or returns \<open>null\<close> so that the first
  property read throws, the exception is raised inside the \<open>try\<close> block and caught there: the
  handler returns the state it was given, with every field (answers, typing, summary, ordering
  hint, loading indicator, toasts) unchanged, and a message that follows is processed as if the
  bad frame had not arrived. A frame that parses raises no error: when its type is neither
  "answer" nor "summary", a boolean \<open>sent_in_order\<close> it carries is recorded as the ordering
  hint and nothing else changes.
\<close>

theorem malformed_frame_ignored:
  "onmessage_try Unparseable st = Inl SyntaxError \<and> onmessage_try JsonNull st = Inl TypeError
   \<and> onmessage r Unparseable st = st \<and> onmessage r JsonNull st = st
   \<and> handle r (Received sid Unparseable) st = st \<and> handle r (Received sid JsonNull) st = st
   \<and> onmessage r (Json m) (onmessage r Unparseable st) = onmessage r (Json m) st
   \<and> onmessage r (Json m) (onmessage r JsonNull st) = onmessage r (Json m) st
   \<and> (msg_type u \<noteq> ''answer'' \<and> msg_type u \<noteq> ''summary'' \<longrightarrow>
        onmessage_try (Json u) st =
          Inr (case sent_in_order u of Some b \<Rightarrow> st\<lparr>sentInOrder := Some b\<rparr> | None \<Rightarrow> st)
        \<and> onmessage r (Json u) st =
          (case sent_in_order u of Some b \<Rightarrow> st\<lparr>sentInOrder := Some b\<rparr> | None \<Rightarrow> st))"
  by (simp add: onmessage_def onmessage_try_def split: option.splits)

theorem malformed_frame_ignored_witness:
  "onmessage Diagnostic Unparseable (submit Diagnostic example_form) = submit Diagnostic example_form
   \<and> onmessage Diagnostic JsonNull (submit Diagnostic example_form) = submit Diagnostic example_form
   \<and> msg_type example_unknown \<noteq> ''answer'' \<and> msg_type example_unknown \<noteq> ''summary''
   \<and> onmessage Diagnostic (Json example_unknown) (submit Diagnostic example_form)
       = (submit Diagnostic example_form)\<lparr>sentInOrder := Some False\<rparr>"
proof -
  have u: "msg_type example_unknown \<noteq> ''answer''" "msg_type example_unknown \<noteq> ''summary''"
    "sent_in_order example_unknown = Some False"
    by (simp_all add: example_unknown_def)
  note t = malformed_frame_ignored [where st = "submit Diagnostic example_form"
      and r = Diagnostic and u = example_unknown]
  have c: "onmessage Diagnostic (Json example_unknown) (submit Diagnostic example_form) =
      (case sent_in_order example_unknown of
         Some b \<Rightarrow> (submit Diagnostic example_form)\<lparr>sentInOrder := Some b\<rparr>
       | None \<Rightarrow> submit Diagnostic example_form)"
    using t u(1,2) by blast
  have d: "onmessage Diagnostic Unparseable (submit Diagnostic example_form)
        = submit Diagnostic example_form"
    "onmessage Diagnostic JsonNull (submit Diagnostic example_form)
        = submit Diagnostic example_form"
    using t by blast+
  show ?thesis
    using u c d by simp
qed

text \<open>
  A frame that parses, of a type the handler does not know, carrying
  \<open>sent_in_order: false\<close>: the ordering hint of the session changes.
\<close>

theorem unknown_type_hint_counterexample:
  "sentInOrder (run Plain [Opened 0] (submit Plain example_form)) = None
   \<and> sentInOrder (run Plain [Opened 0, Received 0 (Json example_unknown)]
        (submit Plain example_form)) = Some False"
  by code_simp

subsection \<open>Error and close events (C10, C3)\<close>

text \<open>
  Claim C10. In both revisions the error callback and the close callback change only the
  loading indicator (set to false), the toasts and the socket's timer: the answers, the typing
  map, the summary and the ordering hint are the ones held before, and so is the sorted view
  of the answers.
\<close>

theorem failure_events_keep_answers:
  "onerror r sid st = st\<lparr> sessionLoading := False, sockets := sockets (onerror r sid st),
                          toasts := toasts (onerror r sid st) \<rparr>
   \<and> onclose r sid code reason st =
       st\<lparr> sessionLoading := False, sockets := sockets (onclose r sid code reason st),
           toasts := toasts (onclose r sid code reason st) \<rparr>
   \<and> answers (onerror r sid st) = answers st \<and> typing (onerror r sid st) = typing st
   \<and> summary (onerror r sid st) = summary st \<and> sentInOrder (onerror r sid st) = sentInOrder st
   \<and> sortedAnswers (onerror r sid st) = sortedAnswers st
   \<and> answers (onclose r sid code reason st) = answers st
   \<and> typing (onclose r sid code reason st) = typing st
   \<and> summary (onclose r sid code reason st) = summary st
   \<and> sentInOrder (onclose r sid code reason st) = sentInOrder st
   \<and> sortedAnswers (onclose r sid code reason st) = sortedAnswers st"
  by (cases r)
     (simp_all add: onerror_def onclose_def show_toast_def clearTimeout_def update_socket_def
        sortedAnswers_def Let_def)

theorem failure_events_keep_answers_witness:
  "sortedAnswers (onerror Plain 0
       (deliver Plain [example_answer 2 ''B''] (submit Plain example_form)))
     = [example_answer 2 ''B'']
   \<and> sortedAnswers (onclose Diagnostic 0 1006 []
       (deliver Plain [example_answer 2 ''B''] (submit Plain example_form)))
     = [example_answer 2 ''B'']"
proof -
  have e: "sortedAnswers (deliver Plain [example_answer 2 ''B''] (submit Plain example_form))
      = [example_answer 2 ''B'']"
    by code_simp
  show ?thesis
    using failure_events_keep_answers
        [where st = "deliver Plain [example_answer 2 ''B''] (submit Plain example_form)"
           and r = Plain and sid = 0]
      failure_events_keep_answers
        [where st = "deliver Plain [example_answer 2 ''B''] (submit Plain example_form)"
           and r = Diagnostic and sid = 0 and code = 1006 and reason = "[]"]
      e
    by simp
qed

text \<open>
  Claim C3, as amended. The close callback always turns the loading indicator off. Whether it
  shows a toast depends on the revision and on the close code alone, not on whether a summary
  has arrived: the revision without diagnostics never shows one, the revision with diagnostics
  shows "Connection closed (code)" exactly when the code is not 1000.
\<close>

theorem close_surfaced_by_code:
  "\<not> sessionLoading (onclose r sid code reason st)
   \<and> summary (onclose r sid code reason st) = summary st
   \<and> toasts (onclose Plain sid code reason st) = toasts st
   \<and> toasts (onclose Diagnostic sid 1000 reason st) = toasts st
   \<and> (code \<noteq> 1000 \<longrightarrow>
        toasts (onclose Diagnostic sid code reason st) =
          toasts st @ [\<lparr> title = ''Connection closed ('' @ string_of_nat code @ '')'',
            description = (if reason \<noteq> [] then reason
              else ''The connection was closed unexpectedly. See console for diagnostics.'') \<rparr>])"
  by (cases r)
     (simp_all add: onclose_def show_toast_def clearTimeout_def Let_def)

theorem close_surfaced_by_code_witness:
  "(1001 :: nat) \<noteq> 1000
   \<and> \<not> sessionLoading (onclose Diagnostic 0 1001 ''going away'' (submit Diagnostic example_form))
   \<and> toasts (onclose Diagnostic 0 1001 ''going away'' (submit Diagnostic example_form)) =
       [\<lparr> title = ''Connection closed (1001)'', description = ''going away'' \<rparr>]"
proof -
  have s: "string_of_nat 1001 = ''1001''"
    by code_simp
  have t: "toasts (submit Diagnostic example_form) = []"
    by (simp add: submit_valid_fields example_form_valid)
  show ?thesis
    using close_surfaced_by_code
        [where st = "submit Diagnostic example_form" and r = Diagnostic and sid = 0
           and code = 1001 and reason = "''going away''"] s t
    by simp
qed

text \<open>
  A session of the revision with diagnostics: the socket opens, the summary arrives, then the
  connection is lost (close code 1006). The summary is stored, and the close still shows its
  toast.
\<close>

theorem close_after_summary_counterexample:
  "summary (run Diagnostic [Opened 0, Received 0 (Json example_summary)]
              (submit Diagnostic example_form)) = Some example_summary
   \<and> toasts (run Diagnostic [Opened 0, Received 0 (Json example_summary), Closed 0 1006 []]
              (submit Diagnostic example_form))
       = [\<lparr> title = ''Connection closed (1006)'',
            description = ''The connection was closed unexpectedly. See console for diagnostics.'' \<rparr>]"
  by code_simp

subsection \<open>The connect timer (C7)\<close>

text \<open>
  Claim C7, as amended. In the revision with diagnostics a valid submission arms a timer of
  10000 ms on the socket it creates. When that timer fires while the socket is still connecting,
  the callback closes the socket, turns the loading indicator off and shows the toast
  "Connection timeout", whose title differs from the title "Connection error" of the error
  callback. An open event clears the timer, which then no longer fires. The revision without
  diagnostics arms no timer: there a timer event finds nothing to run.
\<close>

theorem connect_timeout:
  assumes "trim (background st) \<noteq> []" and "trimmedQuestions st \<noteq> []" and "ws_valid st"
    and "readyState_of s sid = Some CONNECTING" and "timer_of s sid \<noteq> None"
  shows "ws (submit Diagnostic st) = Some (length (sockets st))
    \<and> readyState_of (submit Diagnostic st) (length (sockets st)) = Some CONNECTING
    \<and> timer_of (submit Diagnostic st) (length (sockets st)) = Some 10000
    \<and> readyState_of (handle Diagnostic (TimedOut sid) s) sid = Some CLOSING
    \<and> timer_of (handle Diagnostic (TimedOut sid) s) sid = None
    \<and> \<not> sessionLoading (handle Diagnostic (TimedOut sid) s)
    \<and> toasts (handle Diagnostic (TimedOut sid) s) =
         toasts s @ [\<lparr> title = ''Connection timeout'',
           description = ''Could not establish a secure WebSocket within 10s. Check TLS/cert or server availability.'' \<rparr>]
    \<and> title (last (toasts (handle Diagnostic (TimedOut sid) s)))
         \<noteq> title (last (toasts (handle Diagnostic (Errored sid) s)))
    \<and> timer_of (handle Diagnostic (Opened sid) s) sid = None
    \<and> handle Diagnostic (TimedOut sid) (handle Diagnostic (Opened sid) s)
         = handle Diagnostic (Opened sid) s
    \<and> timer_of (submit Plain st) (length (sockets st)) = None
    \<and> handle Plain (TimedOut (length (sockets st))) (submit Plain st) = submit Plain st"
proof -
  let ?n = "length (sockets st)"
  have lt: "?n < length (sockets (submit Diagnostic st))"
    using assms(1,2) by (simp add: submit_valid_fields)
  have new: "sockets (submit Diagnostic st) ! ?n = new_socket Diagnostic st"
    using assms(1-3) by (rule submit_new_socket)
  have a: "ws (submit Diagnostic st) = Some ?n"
    using assms(1,2) by (simp add: submit_valid_fields)
  have b: "readyState_of (submit Diagnostic st) ?n = Some CONNECTING"
    using lt new by (simp add: readyState_of_def new_socket_def)
  have c: "timer_of (submit Diagnostic st) ?n = Some 10000"
    using lt new by (simp add: timer_of_def new_socket_def)
  have sid: "sid < length (sockets s)" "readyState (sockets s ! sid) = CONNECTING"
    using assms(4) by (auto simp: readyState_of_def split: if_splits)
  have d: "handle Diagnostic (TimedOut sid) s = show_toast \<lparr> title = ''Connection timeout'',
           description = ''Could not establish a secure WebSocket within 10s. Check TLS/cert or server availability.'' \<rparr>
          ((socket_close sid (clearTimeout sid s))\<lparr>sessionLoading := False\<rparr>)"
    using assms(5) sid
    by (simp add: connectTimeout_callback_def readyState_of_def clearTimeout_def update_socket_def)
  have e: "readyState_of (handle Diagnostic (TimedOut sid) s) sid = Some CLOSING"
    "timer_of (handle Diagnostic (TimedOut sid) s) sid = None"
    "\<not> sessionLoading (handle Diagnostic (TimedOut sid) s)"
    "toasts (handle Diagnostic (TimedOut sid) s) =
         toasts s @ [\<lparr> title = ''Connection timeout'',
           description = ''Could not establish a secure WebSocket within 10s. Check TLS/cert or server availability.'' \<rparr>]"
    using sid unfolding d
    by (simp_all add: show_toast_def socket_close_def clearTimeout_def update_socket_def
        readyState_of_def timer_of_def)
  have f: "title (last (toasts (handle Diagnostic (Errored sid) s))) = ''Connection error''"
    using assms(4) by (simp add: onerror_def show_toast_def)
  have g: "timer_of (handle Diagnostic (Opened sid) s) sid = None"
    using assms(4) sid
    by (simp add: onopen_def set_readyState_def clearTimeout_def socket_send_def
        update_socket_def readyState_of_def timer_of_def Let_def)
  have h: "handle Diagnostic (TimedOut sid) (handle Diagnostic (Opened sid) s)
         = handle Diagnostic (Opened sid) s"
    using g by simp
  have pl: "timer_of (submit Plain st) ?n = None"
    using assms(1-3) by (rule plain_has_no_timer)
  then have pl': "handle Plain (TimedOut ?n) (submit Plain st) = submit Plain st"
    by simp
  show ?thesis
    using a b c e f g h pl pl' by simp
qed

theorem connect_timeout_witness:
  "trim (background example_form) \<noteq> [] \<and> trimmedQuestions example_form \<noteq> []
   \<and> ws_valid example_form
   \<and> readyState_of (submit Diagnostic example_form) 0 = Some CONNECTING
   \<and> timer_of (submit Diagnostic example_form) 0 = Some 10000
   \<and> readyState_of (handle Diagnostic (TimedOut 0) (submit Diagnostic example_form)) 0
       = Some CLOSING
   \<and> \<not> sessionLoading (handle Diagnostic (TimedOut 0) (submit Diagnostic example_form))
   \<and> toasts (handle Diagnostic (TimedOut 0) (submit Diagnostic example_form)) =
       [\<lparr> title = ''Connection timeout'',
          description = ''Could not establish a secure WebSocket within 10s. Check TLS/cert or server availability.'' \<rparr>]"
proof -
  have h1: "trim (background example_form) \<noteq> []"
    and h2: "trimmedQuestions example_form \<noteq> []"
    and h3: "ws_valid example_form"
    by (simp_all add: example_form_valid)
  have h4: "readyState_of (submit Diagnostic example_form) 0 = Some CONNECTING"
    by code_simp
  have h5: "timer_of (submit Diagnostic example_form) 0 \<noteq> None"
    by code_simp
  have t: "toasts (submit Diagnostic example_form) = []"
    by (simp add: submit_valid_fields example_form_valid)
  show ?thesis
    using connect_timeout [OF h1 h2 h3 h4 h5] h1 h2 h3 t
    by (simp add: example_form_valid del: handle.simps)
qed

text \<open>
  The revision without diagnostics, after a valid submission: the socket is connecting, the
  loading indicator is on, no timer is pending, and a timer event leaves the state as it is.
\<close>

theorem connect_timeout_counterexample:
  "readyState_of (submit Plain example_form) 0 = Some CONNECTING
   \<and> sessionLoading (submit Plain example_form)
   \<and> timer_of (submit Plain example_form) 0 = None
   \<and> handle Plain (TimedOut 0) (submit Plain example_form) = submit Plain example_form"
  by code_simp

end
